theory Spec2Isabelle
  imports Complex_Main "HOL-Library.AList" "HOL-Library.Log_Nat"
begin

section \<open>Python values\<close>

text \<open>
  Python numbers (ints and floats) are held as rationals, which every float is. A
  theorem below is a statement under exact arithmetic, unless it is about a definition
  that rounds its results with \<open>double\<close>, as Python does: the operations of the balancer
  whose name ends in \<open>_float\<close>, and the forecasting loop. Exceptions are values of
  \<open>py_error\<close>; a computation that may raise returns \<open>py_error + 'a\<close>, with \<open>Inl\<close> for the
  exception.
\<close>

datatype py_error =
    KeyError string
  | ZeroDivisionError
  | ValueError string
  | IndexError
  | AttributeError string

definition bind_err :: "py_error + 'a \<Rightarrow> ('a \<Rightarrow> py_error + 'b) \<Rightarrow> py_error + 'b" where
  "bind_err m f = (case m of Inl e \<Rightarrow> Inl e | Inr x \<Rightarrow> f x)"

text \<open>
  \<open>round(x, 2)\<close>: the nearest multiple of 1/100, a tie going to the even neighbour.
\<close>

definition py_round2 :: "rat \<Rightarrow> rat" where
  "py_round2 x =
     (let y = x * 100; f = \<lfloor>y\<rfloor>; d = y - of_int f
      in of_int (if d < 1 / 2 then f
                 else if 1 / 2 < d then f + 1
                 else if even f then f else f + 1) / 100)"

text \<open>
  A Python float is a binary64 number: a rational \<open>m * 2 ^ e\<close> with \<open>\<bar>m\<bar> < 2 ^ 53\<close> and
  \<open>- 1074 \<le> e\<close>. The result of a float operation is the float nearest to the exact
  result, a tie going to the even \<open>m\<close>: \<open>double x\<close> is that float, for \<open>x\<close> below the
  overflow threshold \<open>2 ^ 1024\<close>. \<open>floor_log2 x\<close> is the integer \<open>e\<close> with
  \<open>2 ^ e \<le> \<bar>x\<bar> < 2 ^ (e + 1)\<close>, for \<open>x\<close> other than zero.
\<close>

definition pow2 :: "int \<Rightarrow> rat" where
  "pow2 e = (if 0 \<le> e then 2 ^ nat e else 1 / 2 ^ nat (- e))"

definition round_half_even :: "rat \<Rightarrow> int" where
  "round_half_even y =
     (let f = \<lfloor>y\<rfloor>; d = y - of_int f
      in if d < 1 / 2 then f else if 1 / 2 < d then f + 1 else if even f then f else f + 1)"

definition floor_log2 :: "rat \<Rightarrow> int" where
  "floor_log2 x =
     (let (a, b) = quotient_of \<bar>x\<bar>; e = bitlen a - bitlen b
      in if pow2 e \<le> \<bar>x\<bar> then e else e - 1)"

definition double :: "rat \<Rightarrow> rat" where
  "double x =
     (if x = 0 then 0
      else let q = pow2 (max (floor_log2 x) (- 1022) - 52)
           in of_int (round_half_even (x / q)) * q)"

text \<open>
  \<open>round(x, 2)\<close> on a \<open>numpy.float64\<close>, which is what a prediction of the regressor is:
  numpy multiplies by 100, rounds to the nearest integer, a tie going to the even one,
  and divides by 100, each step a float operation.
\<close>

definition numpy_round2 :: "rat \<Rightarrow> rat" where
  "numpy_round2 x = double (of_int (round_half_even (double (x * 100))) / 100)"

text \<open>\<open>a / b\<close> on numbers: raises \<open>ZeroDivisionError\<close> when \<open>b\<close> is zero.\<close>

definition py_div :: "rat \<Rightarrow> rat \<Rightarrow> py_error + rat" where
  "py_div a b = (if b = 0 then Inl ZeroDivisionError else Inr (a / b))"

text \<open>
  A dict is an association list in insertion order with one entry per key:
  \<open>d[k] = v\<close> is \<open>AList.update k v d\<close> (an existing key keeps its position, a new one
  goes last) and \<open>d[k]\<close> is \<open>dict_get d k\<close>, which raises \<open>KeyError\<close> on a missing key.
\<close>

definition dict_get :: "(string \<times> 'v) list \<Rightarrow> string \<Rightarrow> py_error + 'v" where
  "dict_get d k = (case map_of d k of None \<Rightarrow> Inl (KeyError k) | Some v \<Rightarrow> Inr v)"

section \<open>Load balancer: data model (utils.py)\<close>

text \<open>
  One entry of \<open>power_data['regions']\<close>: each of the three keys may be missing, and is
  then read through \<open>data.get(key, default)\<close>.
\<close>

record region_input =
  in_generation :: "rat option"
  in_consumption :: "rat option"
  in_frequency :: "rat option"

type_synonym snapshot = "(string \<times> region_input) list"

text \<open>
  The inner dict \<open>{'generation', 'consumption', 'balance', 'frequency'}\<close> of one region.
  These dicts are mutable objects: they live in a store, and \<open>initial_status\<close> and
  \<open>balanced_status\<close> are dicts from region names to addresses in that store. The four
  numbers are Python floats; the operations below compute with them exactly, and the
  operations whose name ends in \<open>_float\<close> round each result as Python does.
\<close>

record region_status =
  generation :: rat
  consumption :: rat
  balance :: rat
  frequency :: rat

type_synonym addr = nat
type_synonym heap = "addr \<Rightarrow> region_status"
type_synonym status = "(string \<times> addr) list"

definition empty_heap :: heap where
  "empty_heap = (\<lambda>_. \<lparr>generation = 0, consumption = 0, balance = 0, frequency = 0\<rparr>)"

text \<open>
  The ambient sources the function reads: \<open>uniform k\<close> is the value of the \<open>k\<close>-th call of
  \<open>np.random.random()\<close>, \<open>pick k\<close> the raw number behind the \<open>k\<close>-th draw of
  \<open>np.random.choice\<close>, and \<open>clock k\<close> the text of the \<open>k\<close>-th
  \<open>datetime.now().isoformat()\<close>.
\<close>

record env =
  uniform :: "nat \<Rightarrow> rat"
  pick :: "nat \<Rightarrow> nat"
  clock :: "nat \<Rightarrow> string"

record balancing_action =
  source :: string
  target :: string
  amount :: rat
  timestamp :: string

record metrics =
  initial_imbalance :: rat
  remaining_imbalance :: rat
  improvement_percentage :: rat
  transfers_count :: nat
  total_power_transferred :: rat

text \<open>
  The result dict of a successful run. \<open>final_heap\<close> is the store at return: the
  records that \<open>initial_status\<close> and \<open>balanced_status\<close> point to are read through it.
\<close>

record balancing_result =
  scenario :: string
  initial_status :: status
  balanced_status :: status
  balancing_actions :: "balancing_action list"
  result_metrics :: metrics
  final_heap :: heap

datatype sim_result =
    Result balancing_result
  | ErrorResult py_error string "string list"

text \<open>What a reader of the result sees under a region name.\<close>

definition view :: "heap \<Rightarrow> status \<Rightarrow> string \<Rightarrow> region_status option" where
  "view h st r = map_option h (map_of st r)"

section \<open>Load balancer: operations\<close>

text \<open>
  \<open>{k: v for k, v in regional_data.items() if k in regions}\<close>
\<close>

fun filter_regions :: "string list \<Rightarrow> snapshot \<Rightarrow> snapshot \<Rightarrow> snapshot" where
  "filter_regions regions [] acc = acc"
| "filter_regions regions ((k, v) # items) acc =
     filter_regions regions items (if k \<in> set regions then AList.update k v acc else acc)"

text \<open>
  The loop building \<open>initial_status\<close>: each region gets a fresh inner dict, allocated at
  the next free address \<open>n\<close>.
\<close>

fun build_initial_status :: "snapshot \<Rightarrow> heap \<times> addr \<times> status \<Rightarrow> heap \<times> addr \<times> status" where
  "build_initial_status [] s = s"
| "build_initial_status ((region, data) # items) (h, n, st) =
     (let gen = (case in_generation data of Some g \<Rightarrow> g | None \<Rightarrow> 0);
          cons = (case in_consumption data of Some c \<Rightarrow> c | None \<Rightarrow> 0);
          bal = gen - cons;
          cell = \<lparr>generation = gen, consumption = cons, balance = bal,
                  frequency = (case in_frequency data of Some f \<Rightarrow> f | None \<Rightarrow> 50)\<rparr>
      in build_initial_status items (h(n := cell), Suc n, AList.update region n st))"

text \<open>
  \<open>status[region][field] = f(status[region])\<close>: one assignment to a field of the inner
  dict of \<open>region\<close>, with every read on the right-hand side going to that same dict.
\<close>

definition update_cell ::
  "status \<Rightarrow> string \<Rightarrow> (region_status \<Rightarrow> region_status) \<Rightarrow> heap \<Rightarrow> py_error + heap" where
  "update_cell st region f h =
     bind_err (dict_get st region) (\<lambda>a. Inr (h(a := f (h a))))"

text \<open>
  \<open>np.random.choice(keys)\<close> and \<open>np.random.choice(keys, size=2, replace=False)\<close>: both
  raise \<open>ValueError\<close> when the population is too small; otherwise the raw numbers of the
  random source select positions, the second draw among the keys the first one left.
\<close>

definition random_choice :: "env \<Rightarrow> string list \<Rightarrow> py_error + string" where
  "random_choice ev keys =
     (if keys = [] then Inl (ValueError ''a cannot be empty'')
      else Inr (keys ! (pick ev 0 mod length keys)))"

definition random_choice2 :: "env \<Rightarrow> string list \<Rightarrow> py_error + string list" where
  "random_choice2 ev keys =
     (if length keys < 2 then Inl (ValueError ''cannot take a larger sample than population'')
      else let i = pick ev 0 mod length keys;
               rest = take i keys @ drop (Suc i) keys;
               j = pick ev 1 mod length rest
           in Inr [keys ! i, rest ! j])"

text \<open>Scenario \<open>peak\<close>: the loop over all regions; \<open>k\<close> counts the random numbers used.\<close>

fun peak_loop :: "env \<Rightarrow> status \<Rightarrow> string list \<Rightarrow> nat \<Rightarrow> heap \<Rightarrow> py_error + heap" where
  "peak_loop ev st [] k h = Inr h"
| "peak_loop ev st (region # rs) k h =
     (let increase_factor = 11 / 10 + uniform ev k * (1 / 10) in
      bind_err (update_cell st region
                  (\<lambda>c. c\<lparr>consumption := consumption c * increase_factor\<rparr>) h) (\<lambda>h.
      bind_err (update_cell st region
                  (\<lambda>c. c\<lparr>balance := generation c - consumption c\<rparr>) h) (\<lambda>h.
      bind_err (update_cell st region
                  (\<lambda>c. c\<lparr>frequency := frequency c - (5 / 100 + uniform ev (Suc k) * (1 / 10))\<rparr>) h) (\<lambda>h.
      peak_loop ev st rs (k + 2) h))))"

text \<open>Scenario \<open>renewable_surplus\<close>: the loop over the two chosen regions.\<close>

fun surplus_loop :: "env \<Rightarrow> status \<Rightarrow> string list \<Rightarrow> nat \<Rightarrow> heap \<Rightarrow> py_error + heap" where
  "surplus_loop ev st [] k h = Inr h"
| "surplus_loop ev st (region # rs) k h =
     (let increase_factor = 115 / 100 + uniform ev k * (15 / 100) in
      bind_err (update_cell st region
                  (\<lambda>c. c\<lparr>generation := generation c * increase_factor\<rparr>) h) (\<lambda>h.
      bind_err (update_cell st region
                  (\<lambda>c. c\<lparr>balance := generation c - consumption c\<rparr>) h) (\<lambda>h.
      bind_err (update_cell st region
                  (\<lambda>c. c\<lparr>frequency := frequency c + (5 / 100 + uniform ev (Suc k) * (1 / 10))\<rparr>) h) (\<lambda>h.
      surplus_loop ev st rs (k + 2) h))))"

text \<open>Scenario \<open>outage\<close>: the single chosen region.\<close>

definition outage_region_update :: "env \<Rightarrow> status \<Rightarrow> string \<Rightarrow> heap \<Rightarrow> py_error + heap" where
  "outage_region_update ev st outage_region h =
     (let decrease_factor = 6 / 10 + uniform ev 0 * (2 / 10) in
      bind_err (update_cell st outage_region
                  (\<lambda>c. c\<lparr>generation := generation c * decrease_factor\<rparr>) h) (\<lambda>h.
      bind_err (update_cell st outage_region
                  (\<lambda>c. c\<lparr>balance := generation c - consumption c\<rparr>) h) (\<lambda>h.
      update_cell st outage_region
                  (\<lambda>c. c\<lparr>frequency := frequency c - (2 / 10 + uniform ev 1 * (2 / 10))\<rparr>) h)))"

text \<open>
  The scenario stage (\<open>if scenario == 'peak': ... elif ... elif ...\<close>, with no
  \<open>else\<close>): it mutates the inner dicts of \<open>initial_status\<close> in the store.
\<close>

definition apply_scenario :: "string \<Rightarrow> env \<Rightarrow> status \<Rightarrow> heap \<Rightarrow> py_error + heap" where
  "apply_scenario scen ev st h =
     (if scen = ''peak'' then peak_loop ev st (map fst st) 0 h
      else if scen = ''renewable_surplus'' then
        bind_err (random_choice2 ev (map fst st)) (\<lambda>surplus_regions.
          surplus_loop ev st surplus_regions 0 h)
      else if scen = ''outage'' then
        bind_err (random_choice ev (map fst st)) (\<lambda>outage_region.
          outage_region_update ev st outage_region h)
      else Inr h)"

text \<open>\<open>sum(r['balance'] for r in status.values())\<close>\<close>

definition sum_balance :: "heap \<Rightarrow> status \<Rightarrow> rat" where
  "sum_balance h st = sum_list (map (\<lambda>(r, a). balance (h a)) st)"

text \<open>
  \<open>status[r]['balance']\<close> for each \<open>r\<close> of a list of region names, in order: the keys that
  \<open>sorted\<close> and the two list comprehensions compute before they sort or filter.
\<close>

fun balances_of :: "heap \<Rightarrow> status \<Rightarrow> string list \<Rightarrow> py_error + (string \<times> rat) list" where
  "balances_of h st [] = Inr []"
| "balances_of h st (r # rs) =
     bind_err (dict_get st r) (\<lambda>a.
     bind_err (balances_of h st rs) (\<lambda>kb. Inr ((r, balance (h a)) # kb)))"

text \<open>
  \<open>sorted(status.keys(), key=lambda r: status[r]['balance'], reverse=True)\<close>: a stable
  sort, regions of equal balance keeping their dict order.
\<close>

definition sorted_by_balance :: "heap \<Rightarrow> status \<Rightarrow> py_error + string list" where
  "sorted_by_balance h st =
     bind_err (balances_of h st (map fst st)) (\<lambda>kb.
       Inr (map fst (sort_key (\<lambda>(r, b). - b) kb)))"

text \<open>\<open>[r for r in sorted_regions if P(status[r]['balance'])]\<close>\<close>

definition select_regions ::
  "(rat \<Rightarrow> bool) \<Rightarrow> heap \<Rightarrow> status \<Rightarrow> string list \<Rightarrow> py_error + string list" where
  "select_regions P h st rs =
     bind_err (balances_of h st rs) (\<lambda>kb. Inr (map fst (filter (\<lambda>(r, b). P b) kb)))"

text \<open>
  The inner loop of the greedy pass, for one surplus region: \<open>continue\<close> goes on with the
  next deficit region, \<open>break\<close> leaves the loop. The state is the store and the list of
  actions recorded so far.
\<close>

fun transfer_loop ::
  "env \<Rightarrow> status \<Rightarrow> string \<Rightarrow> string list \<Rightarrow> rat \<Rightarrow> heap \<times> balancing_action list
     \<Rightarrow> py_error + heap \<times> balancing_action list" where
  "transfer_loop ev st surplus_region [] available_surplus s = Inr s"
| "transfer_loop ev st surplus_region (deficit_region # ds) available_surplus (h, acts) =
     bind_err (dict_get st deficit_region) (\<lambda>d.
     let needed_power = \<bar>balance (h d)\<bar> in
     if needed_power \<le> 0 then
       transfer_loop ev st surplus_region ds available_surplus (h, acts)
     else
       let transfer_amount = min available_surplus needed_power in
       if transfer_amount \<le> 0 then
         transfer_loop ev st surplus_region ds available_surplus (h, acts)
       else
         bind_err (update_cell st surplus_region
                     (\<lambda>c. c\<lparr>balance := balance c - transfer_amount\<rparr>) h) (\<lambda>h.
         bind_err (update_cell st deficit_region
                     (\<lambda>c. c\<lparr>balance := balance c + transfer_amount\<rparr>) h) (\<lambda>h.
         let acts = acts @ [\<lparr>source = surplus_region, target = deficit_region,
                              amount = py_round2 transfer_amount,
                              timestamp = clock ev (length acts)\<rparr>];
             available_surplus = available_surplus - transfer_amount
         in if available_surplus \<le> 0 then Inr (h, acts)
            else transfer_loop ev st surplus_region ds available_surplus (h, acts))))"

text \<open>The outer loop of the greedy pass, over the surplus regions.\<close>

fun balance_loop ::
  "env \<Rightarrow> status \<Rightarrow> string list \<Rightarrow> string list \<Rightarrow> heap \<times> balancing_action list
     \<Rightarrow> py_error + heap \<times> balancing_action list" where
  "balance_loop ev st [] deficit_regions s = Inr s"
| "balance_loop ev st (surplus_region # srs) deficit_regions (h, acts) =
     bind_err (dict_get st surplus_region) (\<lambda>a.
     let available_surplus = balance (h a) in
     if available_surplus \<le> 0 then balance_loop ev st srs deficit_regions (h, acts)
     else
       bind_err (transfer_loop ev st surplus_region deficit_regions available_surplus (h, acts))
         (\<lambda>s. balance_loop ev st srs deficit_regions s))"

text \<open>
  The greedy pass: sort, partition, transfer. It starts with no action recorded.
\<close>

definition rebalance ::
  "env \<Rightarrow> status \<Rightarrow> heap \<Rightarrow> py_error + heap \<times> balancing_action list" where
  "rebalance ev balanced_st h =
     bind_err (sorted_by_balance h balanced_st) (\<lambda>sorted_regions.
     bind_err (select_regions (\<lambda>b. 0 < b) h balanced_st sorted_regions) (\<lambda>surplus_regions.
     bind_err (select_regions (\<lambda>b. b < 0) h balanced_st sorted_regions) (\<lambda>deficit_regions.
     balance_loop ev balanced_st surplus_regions deficit_regions (h, []))))"

text \<open>
  The frequency loop after the transfers. It reads the final balance through
  \<open>balanced_status\<close> and the initial balance and consumption through \<open>initial_status\<close>.
\<close>

fun frequency_loop :: "status \<Rightarrow> status \<Rightarrow> string list \<Rightarrow> heap \<Rightarrow> py_error + heap" where
  "frequency_loop initial_st balanced_st [] h = Inr h"
| "frequency_loop initial_st balanced_st (region # rs) h =
     bind_err (dict_get balanced_st region) (\<lambda>b.
     bind_err (dict_get initial_st region) (\<lambda>i.
     let initial_freq = frequency (h b);
         balance_change = balance (h b) - balance (h i)
     in bind_err (py_div balance_change (consumption (h i))) (\<lambda>q.
        let freq_change = q * (1 / 10) in
        frequency_loop initial_st balanced_st rs
          (h(b := (h b)\<lparr>frequency := min (502 / 10) (max (498 / 10) (initial_freq + freq_change))\<rparr>)))))"

definition improvement :: "rat \<Rightarrow> rat \<Rightarrow> rat" where
  "improvement total_imbalance remaining =
     (if total_imbalance \<noteq> 0
      then (\<bar>total_imbalance\<bar> - \<bar>remaining\<bar>) / \<bar>total_imbalance\<bar> * 100
      else 0)"

text \<open>
  The first two stages of the \<open>try\<close> block of \<open>simulate_load_balancing\<close>, from the
  regions dict of the power data on: filter, build \<open>initial_status\<close>, apply the scenario.
  The result is the store and \<open>initial_status\<close> as they are when the greedy pass starts.
\<close>

definition prepare_status ::
  "env \<Rightarrow> string \<Rightarrow> string list \<Rightarrow> snapshot \<Rightarrow> py_error + heap \<times> status" where
  "prepare_status ev scen regions regional_data =
     (let regional_data = filter_regions regions regional_data [];
          (h, n, initial_st) = build_initial_status regional_data (empty_heap, 0, [])
      in bind_err (apply_scenario scen ev initial_st h) (\<lambda>h. Inr (h, initial_st)))"

text \<open>
  The body of the \<open>try\<close> block. \<open>initial_status.copy()\<close> is a shallow copy: a new outer
  dict holding the same addresses.
\<close>

definition simulate_body ::
  "env \<Rightarrow> string \<Rightarrow> string list \<Rightarrow> snapshot \<Rightarrow> py_error + balancing_result" where
  "simulate_body ev scen regions regional_data =
     bind_err (prepare_status ev scen regions regional_data) (\<lambda>(h, initial_st).
     let total_imbalance = sum_balance h initial_st;
         balanced_st = initial_st
     in bind_err (rebalance ev balanced_st h) (\<lambda>(h, acts).
        bind_err (frequency_loop initial_st balanced_st (map fst balanced_st) h) (\<lambda>h.
        let remaining = sum_balance h balanced_st;
            improvement_pct = improvement total_imbalance remaining
        in Inr \<lparr>scenario = scen,
                initial_status = initial_st,
                balanced_status = balanced_st,
                balancing_actions = acts,
                result_metrics =
                  \<lparr>initial_imbalance = py_round2 total_imbalance,
                   remaining_imbalance = py_round2 remaining,
                   improvement_percentage = py_round2 improvement_pct,
                   transfers_count = length acts,
                   total_power_transferred = py_round2 (sum_list (map amount acts))\<rparr>,
                final_heap = h\<rparr>)))"

text \<open>
  \<open>simulate_load_balancing(scenario, regions)\<close>: an empty or missing \<open>regions\<close> means all
  regions, and any exception of the body becomes the error dict.
\<close>

definition simulate_load_balancing ::
  "env \<Rightarrow> string \<Rightarrow> string list option \<Rightarrow> snapshot \<Rightarrow> sim_result" where
  "simulate_load_balancing ev scen regions_arg regional_data =
     (let regions = (case regions_arg of
                       None \<Rightarrow> map fst regional_data
                     | Some rs \<Rightarrow> if rs = [] then map fst regional_data else rs)
      in case simulate_body ev scen regions regional_data of
           Inl e \<Rightarrow> ErrorResult e scen regions
         | Inr res \<Rightarrow> Result res)"

subsection \<open>The greedy pass in float arithmetic\<close>

text \<open>
  The balances that \<open>simulate_load_balancing\<close> computes are Python floats. The
  definitions below are the statements of \<open>utils.py\<close> that build the balances, move
  them and add them up, once more, with every \<open>-\<close>, \<open>-=\<close>, \<open>+=\<close> and every addition
  of \<open>sum\<close> rounded to binary64. Comparisons, \<open>min\<close>, \<open>abs\<close>, the sort and the
  partition do not round, and are the ones above. The numbers of the snapshot are floats
  already.
\<close>

fun build_initial_status_float ::
  "snapshot \<Rightarrow> heap \<times> addr \<times> status \<Rightarrow> heap \<times> addr \<times> status" where
  "build_initial_status_float [] s = s"
| "build_initial_status_float ((region, data) # items) (h, n, st) =
     (let gen = (case in_generation data of Some g \<Rightarrow> g | None \<Rightarrow> 0);
          cons = (case in_consumption data of Some c \<Rightarrow> c | None \<Rightarrow> 0);
          bal = double (gen - cons);
          cell = \<lparr>generation = gen, consumption = cons, balance = bal,
                  frequency = (case in_frequency data of Some f \<Rightarrow> f | None \<Rightarrow> 50)\<rparr>
      in build_initial_status_float items (h(n := cell), Suc n, AList.update region n st))"

text \<open>
  \<open>sum(r['balance'] for r in status.values())\<close> on floats: it starts from 0 and adds the
  balances in dict order, rounding after each addition.
\<close>

definition sum_balance_float :: "heap \<Rightarrow> status \<Rightarrow> rat" where
  "sum_balance_float h st =
     foldl (\<lambda>s b. double (s + b)) 0 (map (\<lambda>(r, a). balance (h a)) st)"

fun transfer_loop_float ::
  "env \<Rightarrow> status \<Rightarrow> string \<Rightarrow> string list \<Rightarrow> rat \<Rightarrow> heap \<times> balancing_action list
     \<Rightarrow> py_error + heap \<times> balancing_action list" where
  "transfer_loop_float ev st surplus_region [] available_surplus s = Inr s"
| "transfer_loop_float ev st surplus_region (deficit_region # ds) available_surplus (h, acts) =
     bind_err (dict_get st deficit_region) (\<lambda>d.
     let needed_power = \<bar>balance (h d)\<bar> in
     if needed_power \<le> 0 then
       transfer_loop_float ev st surplus_region ds available_surplus (h, acts)
     else
       let transfer_amount = min available_surplus needed_power in
       if transfer_amount \<le> 0 then
         transfer_loop_float ev st surplus_region ds available_surplus (h, acts)
       else
         bind_err (update_cell st surplus_region
                     (\<lambda>c. c\<lparr>balance := double (balance c - transfer_amount)\<rparr>) h) (\<lambda>h.
         bind_err (update_cell st deficit_region
                     (\<lambda>c. c\<lparr>balance := double (balance c + transfer_amount)\<rparr>) h) (\<lambda>h.
         let acts = acts @ [\<lparr>source = surplus_region, target = deficit_region,
                              amount = double (py_round2 transfer_amount),
                              timestamp = clock ev (length acts)\<rparr>];
             available_surplus = double (available_surplus - transfer_amount)
         in if available_surplus \<le> 0 then Inr (h, acts)
            else transfer_loop_float ev st surplus_region ds available_surplus (h, acts))))"

fun balance_loop_float ::
  "env \<Rightarrow> status \<Rightarrow> string list \<Rightarrow> string list \<Rightarrow> heap \<times> balancing_action list
     \<Rightarrow> py_error + heap \<times> balancing_action list" where
  "balance_loop_float ev st [] deficit_regions s = Inr s"
| "balance_loop_float ev st (surplus_region # srs) deficit_regions (h, acts) =
     bind_err (dict_get st surplus_region) (\<lambda>a.
     let available_surplus = balance (h a) in
     if available_surplus \<le> 0 then balance_loop_float ev st srs deficit_regions (h, acts)
     else
       bind_err (transfer_loop_float ev st surplus_region deficit_regions available_surplus
                   (h, acts))
         (\<lambda>s. balance_loop_float ev st srs deficit_regions s))"

definition rebalance_float ::
  "env \<Rightarrow> status \<Rightarrow> heap \<Rightarrow> py_error + heap \<times> balancing_action list" where
  "rebalance_float ev balanced_st h =
     bind_err (sorted_by_balance h balanced_st) (\<lambda>sorted_regions.
     bind_err (select_regions (\<lambda>b. 0 < b) h balanced_st sorted_regions) (\<lambda>surplus_regions.
     bind_err (select_regions (\<lambda>b. b < 0) h balanced_st sorted_regions) (\<lambda>deficit_regions.
     balance_loop_float ev balanced_st surplus_regions deficit_regions (h, []))))"

section \<open>Forecaster: data model (forecasting.py)\<close>

text \<open>
  One point of the historical series. A calendar date is its day number, so that
  \<open>date + timedelta(days=i)\<close> is \<open>date + i\<close>.
\<close>

record demand_point =
  dp_date :: int
  peak_demand :: rat
  minimum_demand :: rat
  average_demand :: rat

text \<open>
  A row of the data frame after feature preparation: the date, the target column and
  the nine feature columns.
\<close>

record feature_row =
  row_date :: int
  row_average_demand :: rat
  dayofweek :: int
  month :: int
  day :: int
  is_weekend :: int
  demand_lag1 :: rat
  demand_lag2 :: rat
  demand_lag7 :: rat
  demand_rolling_mean3 :: rat
  demand_rolling_mean7 :: rat

record forecast_point =
  date :: int
  predicted_demand :: rat
  lower_bound :: rat
  upper_bound :: rat

text \<open>
  A fitted scaler is its \<open>transform\<close>, a fitted regressor its \<open>predict\<close> on one row;
  both belong to scikit-learn and may raise.
\<close>

type_synonym scaler = "rat list \<Rightarrow> py_error + rat list"
type_synonym regressor = "rat list \<Rightarrow> py_error + rat"

text \<open>
  What the forecaster takes from pandas and scikit-learn: the calendar fields of a date,
  \<open>StandardScaler.fit_transform\<close> on a matrix with at least one row, and the training
  steps of \<open>train_model\<close> (split, fit, the two scores and the feature importances).
\<close>

record library =
  cal_dayofweek :: "int \<Rightarrow> int"
  cal_month :: "int \<Rightarrow> int"
  cal_day :: "int \<Rightarrow> int"
  lib_fit_transform :: "rat list list \<Rightarrow> py_error + scaler \<times> rat list list"
  lib_fit_forest :: "rat list list \<Rightarrow> rat list \<Rightarrow> py_error + regressor \<times> rat \<times> rat \<times> rat list"

text \<open>The forecaster object: \<open>self.model\<close> (\<open>None\<close> until trained) and \<open>self.scaler\<close>.\<close>

record forecaster =
  model :: "regressor option"
  fitted_scaler :: "scaler option"

definition new_forecaster :: forecaster where
  "new_forecaster = \<lparr>model = None, fitted_scaler = None\<rparr>"

text \<open>The dict \<open>train_model\<close> returns on success.\<close>

record training_info =
  train_score :: rat
  validation_score :: rat
  feature_importance :: "rat list"

text \<open>
  The three shapes of dict that \<open>forecast_demand\<close> returns:
  \<open>{"success": True, "forecast": ...}\<close>, the failed training result
  \<open>{"success": False, "error": ...}\<close> returned as it is, and
  \<open>{"success": False, "error": ..., "fallback_forecast": ...}\<close>.
\<close>

datatype forecast_result =
    ForecastOk "forecast_point list"
  | TrainingFailed py_error
  | ForecastFailed py_error "forecast_point list"

section \<open>Forecaster: operations\<close>

text \<open>
  The rows that survive \<open>dropna\<close>, built from the series sorted by date: row \<open>i\<close> has its
  three lags and both rolling means defined exactly when \<open>7 \<le> i\<close> (the window of a
  rolling mean ends at the row itself). The rolling means are written with exact
  arithmetic; only the scaler and the regressor read them.
\<close>

definition feature_rows :: "library \<Rightarrow> demand_point list \<Rightarrow> feature_row list" where
  "feature_rows lib historical_data =
     (let df = sort_key dp_date historical_data;
          avg = map average_demand df
      in map (\<lambda>i. let d = dp_date (df ! i) in
                \<lparr>row_date = d,
                 row_average_demand = avg ! i,
                 dayofweek = cal_dayofweek lib d,
                 month = cal_month lib d,
                 day = cal_day lib d,
                 is_weekend = (if 5 \<le> cal_dayofweek lib d then 1 else 0),
                 demand_lag1 = avg ! (i - 1),
                 demand_lag2 = avg ! (i - 2),
                 demand_lag7 = avg ! (i - 7),
                 demand_rolling_mean3 = (avg ! (i - 2) + avg ! (i - 1) + avg ! i) / 3,
                 demand_rolling_mean7 = sum_list (take 7 (drop (i - 6) avg)) / 7\<rparr>)
           [7 ..< length df])"

text \<open>\<open>row[feature_columns].values\<close>\<close>

definition feature_values :: "feature_row \<Rightarrow> rat list" where
  "feature_values r =
     [of_int (dayofweek r), of_int (month r), of_int (day r), of_int (is_weekend r),
      demand_lag1 r, demand_lag2 r, demand_lag7 r,
      demand_rolling_mean3 r, demand_rolling_mean7 r]"

text \<open>
  \<open>_prepare_features\<close>: an empty list of points gives a frame with no \<open>date\<close> column,
  and a frame with no surviving row makes \<open>fit_transform\<close> raise. On success the
  fitted scaler is stored in the forecaster.
\<close>

definition prepare_features ::
  "library \<Rightarrow> forecaster \<Rightarrow> demand_point list
     \<Rightarrow> py_error + forecaster \<times> rat list list \<times> rat list \<times> feature_row list" where
  "prepare_features lib fc historical_data =
     (if historical_data = [] then Inl (KeyError ''date'')
      else let df = feature_rows lib historical_data;
               X = map feature_values df;
               y = map row_average_demand df
           in if X = [] then Inl (ValueError ''Found array with 0 sample(s)'')
              else bind_err (lib_fit_transform lib X) (\<lambda>(sc, X_scaled).
                     Inr (fc\<lparr>fitted_scaler := Some sc\<rparr>, X_scaled, y, df)))"

text \<open>
  \<open>train_model\<close>: its own \<open>try\<close> turns every exception into the failure dict.
\<close>

definition train_model ::
  "library \<Rightarrow> forecaster \<Rightarrow> demand_point list \<Rightarrow> (py_error + training_info) \<times> forecaster" where
  "train_model lib fc historical_data =
     (case prepare_features lib fc historical_data of
        Inl e \<Rightarrow> (Inl e, fc)
      | Inr (fc, X_scaled, y, df) \<Rightarrow>
          (case lib_fit_forest lib X_scaled y of
             Inl e \<Rightarrow> (Inl e, fc)
           | Inr (m, ts, vs, imp) \<Rightarrow>
               (Inr \<lparr>train_score = ts, validation_score = vs, feature_importance = imp\<rparr>,
                fc\<lparr>model := Some m\<rparr>)))"

text \<open>\<open>forecast_results[-2]\<close>\<close>

definition second_last :: "'a list \<Rightarrow> py_error + 'a" where
  "second_last xs = (if length xs < 2 then Inl IndexError else Inr (xs ! (length xs - 2)))"

text \<open>
  The forecasting loop, over \<open>i\<close> in \<open>range(1, forecast_days + 1)\<close>; the state is the
  working row and the points produced so far. The prediction is a \<open>numpy.float64\<close>, and
  the arithmetic of the loop is float arithmetic: every product, sum and quotient is
  rounded to binary64.
\<close>

fun forecast_loop ::
  "library \<Rightarrow> scaler \<Rightarrow> regressor \<Rightarrow> int \<Rightarrow> int list \<Rightarrow> feature_row \<Rightarrow> forecast_point list
     \<Rightarrow> py_error + forecast_point list" where
  "forecast_loop lib sc m last_date [] last_row forecast_results = Inr forecast_results"
| "forecast_loop lib sc m last_date (i # rest) last_row forecast_results =
     (let forecast_date = last_date + i;
          last_row = last_row\<lparr>row_date := forecast_date,
                              dayofweek := cal_dayofweek lib forecast_date,
                              month := cal_month lib forecast_date,
                              day := cal_day lib forecast_date,
                              is_weekend := (if 5 \<le> cal_dayofweek lib forecast_date then 1 else 0)\<rparr>
      in bind_err (sc (feature_values last_row)) (\<lambda>X_forecast_scaled.
         bind_err (m X_forecast_scaled) (\<lambda>prediction.
         let forecast_results = forecast_results @
               [\<lparr>date = forecast_date,
                 predicted_demand = numpy_round2 prediction,
                 lower_bound = numpy_round2 (double (prediction * double (95 / 100))),
                 upper_bound = numpy_round2 (double (prediction * double (105 / 100)))\<rparr>];
             last_row = last_row\<lparr>demand_lag7 := demand_lag2 last_row\<rparr>;
             last_row = last_row\<lparr>demand_lag2 := demand_lag1 last_row\<rparr>;
             last_row = last_row\<lparr>demand_lag1 := prediction\<rparr>
         in bind_err (if i = 1 then Inr (row_average_demand last_row)
                      else bind_err (second_last forecast_results)
                             (\<lambda>p. Inr (predicted_demand p))) (\<lambda>third.
            let last_row = last_row\<lparr>demand_rolling_mean3 :=
                             double (double (double (demand_lag1 last_row + demand_lag2 last_row)
                                             + third) / 3)\<rparr>;
                last_row = last_row\<lparr>demand_rolling_mean7 :=
                             double (double (double (double (demand_lag1 last_row
                                                             + demand_lag2 last_row)
                                                     + demand_lag7 last_row)
                                             + double (prediction * 4)) / 7)\<rparr>
            in forecast_loop lib sc m last_date rest last_row forecast_results))))"

text \<open>
  \<open>_get_fallback_forecast\<close>; \<open>now\<close> is the day number of \<open>datetime.now()\<close>.
\<close>

definition get_fallback_forecast :: "int \<Rightarrow> int \<Rightarrow> forecast_point list" where
  "get_fallback_forecast now forecast_days =
     map (\<lambda>i. let forecast_date = now + i;
                   daily_variation = 15000 * ((of_int (i mod 7) - 3) / 3);
                   prediction = 320000 + daily_variation
               in \<lparr>date = forecast_date,
                   predicted_demand = py_round2 prediction,
                   lower_bound = py_round2 (prediction * (95 / 100)),
                   upper_bound = py_round2 (prediction * (105 / 100))\<rparr>)
         [1 .. forecast_days]"

text \<open>
  The part of \<open>forecast_demand\<close> after the training step: prepare the features, take the
  last date and the last row, run the loop.
\<close>

definition forecast_body ::
  "library \<Rightarrow> forecaster \<Rightarrow> demand_point list \<Rightarrow> int
     \<Rightarrow> (py_error + forecast_point list) \<times> forecaster" where
  "forecast_body lib fc historical_data forecast_days =
     (case prepare_features lib fc historical_data of
        Inl e \<Rightarrow> (Inl e, fc)
      | Inr (fc, X_scaled, y, df) \<Rightarrow>
          (case rev df of
             [] \<Rightarrow> (Inl IndexError, fc)
           | last_row # _ \<Rightarrow>
               let last_date = fold max (map row_date df) (row_date last_row) in
               (case (fitted_scaler fc, model fc) of
                  (Some sc, Some m) \<Rightarrow>
                    (forecast_loop lib sc m last_date [1 .. forecast_days] last_row [], fc)
                | _ \<Rightarrow> (Inl (AttributeError ''predict''), fc))))"

text \<open>
  The rest of the \<open>try\<close> block of \<open>forecast_demand\<close> with its \<open>except\<close>: any exception
  gives the fallback series.
\<close>

definition forecast_or_fallback ::
  "library \<Rightarrow> int \<Rightarrow> forecaster \<Rightarrow> demand_point list \<Rightarrow> int \<Rightarrow> forecast_result \<times> forecaster" where
  "forecast_or_fallback lib now fc historical_data forecast_days =
     (case forecast_body lib fc historical_data forecast_days of
        (Inl e, fc) \<Rightarrow> (ForecastFailed e (get_fallback_forecast now forecast_days), fc)
      | (Inr forecast_results, fc) \<Rightarrow> (ForecastOk forecast_results, fc))"

text \<open>
  \<open>forecast_demand\<close>: with no model yet it trains one, and returns the training result
  as it is when training failed.
\<close>

definition forecast_demand ::
  "library \<Rightarrow> int \<Rightarrow> forecaster \<Rightarrow> demand_point list \<Rightarrow> int \<Rightarrow> forecast_result \<times> forecaster" where
  "forecast_demand lib now fc historical_data forecast_days =
     (if model fc = None then
        (case train_model lib fc historical_data of
           (Inl e, fc) \<Rightarrow> (TrainingFailed e, fc)
         | (Inr training_result, fc) \<Rightarrow>
             forecast_or_fallback lib now fc historical_data forecast_days)
      else forecast_or_fallback lib now fc historical_data forecast_days)"

section \<open>Notions used in the statements\<close>

text \<open>
  One transfer of the greedy pass, on the store: \<open>t\<close> leaves the cell \<open>sa\<close> and arrives
  in the cell \<open>da\<close>.
\<close>

definition transfer :: "addr \<Rightarrow> addr \<Rightarrow> rat \<Rightarrow> heap \<Rightarrow> heap" where
  "transfer sa da t h =
     (let h1 = h(sa := (h sa)\<lparr>balance := balance (h sa) - t\<rparr>)
      in h1(da := (h1 da)\<lparr>balance := balance (h1 da) + t\<rparr>))"

text \<open>
  \<open>transfers st h h'\<close>: the store \<open>h'\<close> comes from \<open>h\<close> by a sequence of transfers between
  cells of the status \<open>st\<close>, each positive, at most the balance of its source and at most
  the deficit of its target.
\<close>

inductive transfers :: "status \<Rightarrow> heap \<Rightarrow> heap \<Rightarrow> bool" for st :: status and h :: heap where
  transfers_none: "transfers st h h"
| transfers_step:
    "transfers st h h1 \<Longrightarrow> sa \<in> snd ` set st \<Longrightarrow> da \<in> snd ` set st \<Longrightarrow>
     0 < t \<Longrightarrow> t \<le> balance (h1 sa) \<Longrightarrow> t \<le> - balance (h1 da) \<Longrightarrow>
     transfers st h (transfer sa da t h1)"

text \<open>A status whose keys are distinct and whose cells are distinct and allocated below \<open>n\<close>.\<close>

definition wf_status :: "addr \<Rightarrow> status \<Rightarrow> bool" where
  "wf_status n st \<longleftrightarrow>
     distinct (map fst st) \<and> distinct (map snd st) \<and> list_all (\<lambda>(r, a). a < n) st"

text \<open>Every cell of the status has \<open>balance = generation - consumption\<close>.\<close>

definition balances_derived :: "heap \<Rightarrow> status \<Rightarrow> bool" where
  "balances_derived h st \<longleftrightarrow>
     list_all (\<lambda>(r, a). balance (h a) = generation (h a) - consumption (h a)) st"

text \<open>
  The snapshot of the end-to-end example, \<open>{A: gen=100, cons=80}, {B: gen=50, cons=90}\<close>,
  and an environment to run it in.
\<close>

definition snapshot_AB :: snapshot where
  "snapshot_AB =
     [(''A'', \<lparr>in_generation = Some 100, in_consumption = Some 80, in_frequency = None\<rparr>),
      (''B'', \<lparr>in_generation = Some 50, in_consumption = Some 90, in_frequency = None\<rparr>)]"

definition env0 :: env where
  "env0 = \<lparr>uniform = (\<lambda>k. 1 / 2), pick = (\<lambda>k. k), clock = (\<lambda>k. ''2024-01-01T00:00:00'')\<rparr>"

text \<open>
  A snapshot of three regions whose numbers are the floats \<open>0.1\<close>, \<open>0.6\<close>, \<open>1.3\<close> and
  \<open>0.2\<close>: \<open>{A: gen=0.1, cons=0.6}, {B: gen=0.1, cons=1.3}, {C: gen=0.2, cons=0.1}\<close>.
\<close>

definition snapshot_ABC :: snapshot where
  "snapshot_ABC =
     [(''A'', \<lparr>in_generation = Some (double (1 / 10)), in_consumption = Some (double (6 / 10)),
               in_frequency = None\<rparr>),
      (''B'', \<lparr>in_generation = Some (double (1 / 10)), in_consumption = Some (double (13 / 10)),
               in_frequency = None\<rparr>),
      (''C'', \<lparr>in_generation = Some (double (2 / 10)), in_consumption = Some (double (1 / 10)),
               in_frequency = None\<rparr>)]"

text \<open>The successful result of a run, if there is one.\<close>

definition result_of :: "sim_result \<Rightarrow> balancing_result option" where
  "result_of r = (case r of Result res \<Rightarrow> Some res | ErrorResult e scen regions \<Rightarrow> None)"

text \<open>
  The frequency formula in the words of the specification:
  \<open>clamp(f + (finalBalance - initialBalance) / initialConsumption * 0.1, 49.8, 50.2)\<close>,
  with \<open>initialBalance\<close> the balance before any transfer.
\<close>

definition spec_frequency :: "rat \<Rightarrow> rat \<Rightarrow> rat \<Rightarrow> rat \<Rightarrow> rat" where
  "spec_frequency f initial_balance final_balance initial_consumption =
     min (502 / 10) (max (498 / 10)
       (f + (final_balance - initial_balance) / initial_consumption * (1 / 10)))"





section \<open>Forecaster: properties\<close>

lemma upto_1_7: "[1 .. 7::int] = [1, 2, 3, 4, 5, 6, 7]"
  by (simp add: upto.simps)

lemma feature_rows_short: "length h < 8 \<Longrightarrow> feature_rows lib h = []"
  by (simp add: feature_rows_def Let_def)

text \<open>
  C1. The claim: \<open>forecast_demand\<close> always returns a forecast series, the model's or the
  fallback, also when training fails. The code at a history of three points, on a fresh
  forecaster and whatever the library does: training fails in feature preparation, and
  the failed training result is returned as it is, with no series under any key.
\<close>

theorem forecast_demand_training_failure:
  "forecast_demand lib now new_forecaster
     [\<lparr>dp_date = 1, peak_demand = 330000, minimum_demand = 300000, average_demand = 320000\<rparr>,
      \<lparr>dp_date = 2, peak_demand = 335000, minimum_demand = 305000, average_demand = 322000\<rparr>,
      \<lparr>dp_date = 3, peak_demand = 331000, minimum_demand = 301000, average_demand = 319000\<rparr>] 7
   = (TrainingFailed (ValueError ''Found array with 0 sample(s)''), new_forecaster)"
  by (simp add: forecast_demand_def new_forecaster_def train_model_def prepare_features_def
       feature_rows_short Let_def)

text \<open>
  C6. The fallback forecast for seven days takes no history. It has seven points, the
  \<open>i\<close>-th (from 1) predicting \<open>320000 + 15000 * (((i mod 7) - 3) / 3)\<close>, with the lower
  bound 95% and the upper bound 105% of the predicted value, on the seven days after
  today.
\<close>

theorem fallback_forecast_week:
  "length (get_fallback_forecast now 7) = 7 \<and>
   map predicted_demand (get_fallback_forecast now 7)
     = map (\<lambda>i. 320000 + 15000 * ((of_int (i mod 7) - 3) / 3)) [1 .. 7] \<and>
   map lower_bound (get_fallback_forecast now 7)
     = map (\<lambda>p. predicted_demand p * (95 / 100)) (get_fallback_forecast now 7) \<and>
   map upper_bound (get_fallback_forecast now 7)
     = map (\<lambda>p. predicted_demand p * (105 / 100)) (get_fallback_forecast now 7) \<and>
   map date (get_fallback_forecast now 7) = map (\<lambda>i. now + i) [1 .. 7]"
  by (simp add: get_fallback_forecast_def upto_1_7 py_round2_def Let_def)

section \<open>Load balancer: properties\<close>

lemma bind_err_Inr_iff:
  "bind_err m f = Inr y \<longleftrightarrow> (\<exists>x. m = Inr x \<and> f x = Inr y)"
  by (cases m) (simp_all add: bind_err_def)

lemma bind_err_Inr [simp]: "bind_err (Inr x) f = f x"
  by (simp add: bind_err_def)

lemma bind_err_Inl [simp]: "bind_err (Inl e) f = Inl e"
  by (simp add: bind_err_def)

lemma dict_get_member:
  "distinct (map fst st) \<Longrightarrow> (r, a) \<in> set st \<Longrightarrow> dict_get st r = Inr a"
  by (simp add: dict_get_def)

lemma dict_get_Inr_D: "dict_get st r = Inr a \<Longrightarrow> (r, a) \<in> set st"
  by (auto simp: dict_get_def split: option.splits dest: map_of_SomeD)

lemma dict_get_key:
  "r \<in> fst ` set st \<Longrightarrow> \<exists>a. dict_get st r = Inr a \<and> (r, a) \<in> set st"
  by (cases "map_of st r") (auto simp: dict_get_def map_of_eq_None_iff dest: map_of_SomeD)

lemma update_snd_subset: "snd ` set (AList.update k v al) \<subseteq> insert v (snd ` set al)"
  by (induction al) auto

lemma update_distinct_snd:
  "distinct (map snd al) \<Longrightarrow> v \<notin> snd ` set al \<Longrightarrow> distinct (map snd (AList.update k v al))"
proof (induction al)
  case Nil
  then show ?case by simp
next
  case (Cons p al)
  obtain k' v' where p: "p = (k', v')" by (cases p)
  show ?case
  proof (cases "k' = k")
    case True
    with Cons.prems p show ?thesis by auto
  next
    case False
    have "v' \<notin> snd ` set (AList.update k v al)"
      using update_snd_subset [of k v al] Cons.prems p by auto
    with Cons False p show ?thesis by auto
  qed
qed

lemma wf_status_update:
  assumes "wf_status n st"
  shows "wf_status (Suc n) (AList.update r n st)"
proof -
  from assms have fresh: "n \<notin> snd ` set st"
    by (auto simp: wf_status_def list_all_iff)
  have "list_all (\<lambda>(r, a). a < Suc n) (AList.update r n st)"
    using update_snd_subset [of r n st] assms
    by (fastforce simp: wf_status_def list_all_iff)
  with assms fresh show ?thesis
    by (simp add: wf_status_def distinct_update update_distinct_snd)
qed

lemma build_initial_status_wf:
  "wf_status n st \<Longrightarrow> build_initial_status items (h, n, st) = (h', n', st') \<Longrightarrow> wf_status n' st'"
proof (induction items arbitrary: h n st)
  case Nil
  then show ?case by simp
next
  case (Cons p items)
  obtain r d where p: "p = (r, d)" by (cases p)
  from Cons.prems(2) show ?case
    unfolding p by (simp add: Let_def) (rule Cons.IH [OF wf_status_update [OF Cons.prems(1)]])
qed

lemma balances_derived_update:
  assumes "wf_status n st" "balances_derived h st"
    and "balance c = generation c - consumption c"
  shows "balances_derived (h(n := c)) (AList.update r n st)"
proof -
  have "a = n \<or> a \<in> snd ` set st" if "(k, a) \<in> set (AList.update r n st)" for k a
    using update_snd_subset [of r n st] that by force
  moreover have "a \<noteq> n" if "a \<in> snd ` set st" for a
    using assms(1) that by (auto simp: wf_status_def list_all_iff)
  moreover have "balance (h a) = generation (h a) - consumption (h a)" if "a \<in> snd ` set st" for a
    using assms(2) that by (auto simp: balances_derived_def list_all_iff)
  ultimately show ?thesis
    using assms(3) by (fastforce simp: balances_derived_def list_all_iff)
qed

lemma build_initial_status_derived:
  "wf_status n st \<Longrightarrow> balances_derived h st \<Longrightarrow>
   build_initial_status items (h, n, st) = (h', n', st') \<Longrightarrow> balances_derived h' st'"
proof (induction items arbitrary: h n st)
  case Nil
  then show ?case by simp
next
  case (Cons p items)
  obtain r d where p: "p = (r, d)" by (cases p)
  define c where "c = \<lparr>generation = (case in_generation d of Some g \<Rightarrow> g | None \<Rightarrow> 0),
      consumption = (case in_consumption d of Some c \<Rightarrow> c | None \<Rightarrow> 0),
      balance = (case in_generation d of Some g \<Rightarrow> g | None \<Rightarrow> 0)
                - (case in_consumption d of Some c \<Rightarrow> c | None \<Rightarrow> 0),
      frequency = (case in_frequency d of Some f \<Rightarrow> f | None \<Rightarrow> 50)\<rparr>"
  have c: "balance c = generation c - consumption c"
    by (simp add: c_def)
  from Cons.prems(3) have run: "build_initial_status items (h(n := c), Suc n, AList.update r n st) = (h', n', st')"
    by (simp add: p Let_def c_def)
  show ?case
    by (rule Cons.IH [OF wf_status_update [OF Cons.prems(1)]
                         balances_derived_update [OF Cons.prems(1,2) c] run])
qed

subsection \<open>The scenario stage\<close>

lemma update_cell_Inr_iff:
  "update_cell st r f h = Inr h' \<longleftrightarrow> (\<exists>a. dict_get st r = Inr a \<and> h' = h(a := f (h a)))"
  by (auto simp: update_cell_def bind_err_Inr_iff)

lemma balances_derived_cell:
  "balances_derived h st \<Longrightarrow> balance c = generation c - consumption c \<Longrightarrow>
   balances_derived (h(a := c)) st"
  by (auto simp: balances_derived_def list_all_iff)

lemma update_cell_thrice:
  assumes "update_cell st r f1 h = Inr h1" "update_cell st r f2 h1 = Inr h2"
    "update_cell st r f3 h2 = Inr h3"
  shows "\<exists>a. h3 = h(a := f3 (f2 (f1 (h a))))"
  using assms by (auto simp: update_cell_Inr_iff)

lemma peak_loop_derived:
  "balances_derived h st' \<Longrightarrow> peak_loop ev st rs k h = Inr h' \<Longrightarrow> balances_derived h' st'"
proof (induction rs arbitrary: k h)
  case Nil
  then show ?case by simp
next
  case (Cons r rs)
  let ?f1 = "\<lambda>c. c\<lparr>consumption := consumption c * (11 / 10 + uniform ev k * (1 / 10))\<rparr>"
  let ?f2 = "\<lambda>c. c\<lparr>balance := generation c - consumption c\<rparr>"
  let ?f3 = "\<lambda>c. c\<lparr>frequency := frequency c - (5 / 100 + uniform ev (Suc k) * (1 / 10))\<rparr>"
  from Cons.prems(2) obtain h1 h2 h3 where
    u: "update_cell st r ?f1 h = Inr h1" "update_cell st r ?f2 h1 = Inr h2"
       "update_cell st r ?f3 h2 = Inr h3"
    and run: "peak_loop ev st rs (k + 2) h3 = Inr h'"
    by (auto simp: Let_def bind_err_Inr_iff)
  from update_cell_thrice [OF u] obtain a where h3: "h3 = h(a := ?f3 (?f2 (?f1 (h a))))" ..
  have "balances_derived h3 st'"
    unfolding h3 by (rule balances_derived_cell [OF Cons.prems(1)]) simp
  then show ?case
    using run by (rule Cons.IH)
qed

lemma surplus_loop_derived:
  "balances_derived h st' \<Longrightarrow> surplus_loop ev st rs k h = Inr h' \<Longrightarrow> balances_derived h' st'"
proof (induction rs arbitrary: k h)
  case Nil
  then show ?case by simp
next
  case (Cons r rs)
  let ?f1 = "\<lambda>c. c\<lparr>generation := generation c * (115 / 100 + uniform ev k * (15 / 100))\<rparr>"
  let ?f2 = "\<lambda>c. c\<lparr>balance := generation c - consumption c\<rparr>"
  let ?f3 = "\<lambda>c. c\<lparr>frequency := frequency c + (5 / 100 + uniform ev (Suc k) * (1 / 10))\<rparr>"
  from Cons.prems(2) obtain h1 h2 h3 where
    u: "update_cell st r ?f1 h = Inr h1" "update_cell st r ?f2 h1 = Inr h2"
       "update_cell st r ?f3 h2 = Inr h3"
    and run: "surplus_loop ev st rs (k + 2) h3 = Inr h'"
    by (auto simp: Let_def bind_err_Inr_iff)
  from update_cell_thrice [OF u] obtain a where h3: "h3 = h(a := ?f3 (?f2 (?f1 (h a))))" ..
  have "balances_derived h3 st'"
    unfolding h3 by (rule balances_derived_cell [OF Cons.prems(1)]) simp
  then show ?case
    using run by (rule Cons.IH)
qed

lemma outage_region_update_derived:
  assumes "balances_derived h st'" "outage_region_update ev st r h = Inr h'"
  shows "balances_derived h' st'"
proof -
  let ?f1 = "\<lambda>c. c\<lparr>generation := generation c * (6 / 10 + uniform ev 0 * (2 / 10))\<rparr>"
  let ?f2 = "\<lambda>c. c\<lparr>balance := generation c - consumption c\<rparr>"
  let ?f3 = "\<lambda>c. c\<lparr>frequency := frequency c - (2 / 10 + uniform ev 1 * (2 / 10))\<rparr>"
  from assms(2) obtain h1 h2 where
    u: "update_cell st r ?f1 h = Inr h1" "update_cell st r ?f2 h1 = Inr h2"
       "update_cell st r ?f3 h2 = Inr h'"
    by (auto simp: outage_region_update_def Let_def bind_err_Inr_iff)
  from update_cell_thrice [OF u] obtain a where h': "h' = h(a := ?f3 (?f2 (?f1 (h a))))" ..
  show ?thesis
    unfolding h' by (rule balances_derived_cell [OF assms(1)]) simp
qed

lemma apply_scenario_derived:
  assumes "balances_derived h st'" "apply_scenario scen ev st h = Inr h'"
  shows "balances_derived h' st'"
  using assms
  by (auto simp: apply_scenario_def bind_err_Inr_iff split: if_splits
           intro: peak_loop_derived surplus_loop_derived outage_region_update_derived)

lemma prepare_status_wf:
  assumes "prepare_status ev scen regions regional_data = Inr (h, st)"
  shows "(\<exists>n. wf_status n st) \<and> balances_derived h st"
proof -
  obtain h0 n where
    build: "build_initial_status (filter_regions regions regional_data []) (empty_heap, 0, [])
              = (h0, n, st)"
    and scen: "apply_scenario scen ev st h0 = Inr h"
    using assms
    by (auto simp: prepare_status_def Let_def bind_err_Inr_iff split: prod.splits)
  have wf0: "wf_status 0 []"
    by (simp add: wf_status_def)
  have d0: "balances_derived empty_heap []"
    by (simp add: balances_derived_def)
  have "wf_status n st"
    by (rule build_initial_status_wf [OF wf0 build])
  moreover have "balances_derived h0 st"
    by (rule build_initial_status_derived [OF wf0 d0 build])
  ultimately show ?thesis
    using apply_scenario_derived [OF _ scen] by blast
qed

subsection \<open>Sorting and partitioning\<close>

lemma balances_of_keys:
  "set rs \<subseteq> fst ` set st \<Longrightarrow>
   \<exists>kb. balances_of h st rs = Inr kb \<and> map fst kb = rs \<and>
        (\<forall>(r, b) \<in> set kb. \<exists>a. dict_get st r = Inr a \<and> b = balance (h a))"
proof (induction rs)
  case Nil
  then show ?case by simp
next
  case (Cons r rs)
  from Cons.prems obtain a where a: "dict_get st r = Inr a"
    using dict_get_key [of r st] by auto
  from Cons obtain kb where kb: "balances_of h st rs = Inr kb" "map fst kb = rs"
    "\<forall>(r, b) \<in> set kb. \<exists>a. dict_get st r = Inr a \<and> b = balance (h a)"
    by auto
  show ?case
    using a kb by simp
qed

lemma sorted_by_balance_keys:
  "\<exists>srt. sorted_by_balance h st = Inr srt \<and> set srt = fst ` set st"
proof -
  obtain kb where kb: "balances_of h st (map fst st) = Inr kb" "map fst kb = map fst st"
    using balances_of_keys [of "map fst st" st h] by auto
  have "set (map fst (sort_key (\<lambda>(r, b). - b) kb)) = set (map fst kb)"
    by simp
  with kb show ?thesis
    by (simp add: sorted_by_balance_def)
qed

lemma select_regions_keys:
  assumes "set rs \<subseteq> fst ` set st"
  shows "\<exists>sel. select_regions P h st rs = Inr sel \<and>
           (\<forall>r \<in> set sel. \<exists>a. dict_get st r = Inr a \<and> P (balance (h a)))"
proof -
  obtain kb where kb: "balances_of h st rs = Inr kb"
    "\<forall>(r, b) \<in> set kb. \<exists>a. dict_get st r = Inr a \<and> b = balance (h a)"
    using balances_of_keys [OF assms, of h] by auto
  have "\<exists>a. dict_get st r = Inr a \<and> P (balance (h a))"
    if "r \<in> set (map fst (filter (\<lambda>(r, b). P b) kb))" for r
    using that kb(2) by fastforce
  with kb(1) show ?thesis
    by (simp add: select_regions_def)
qed

subsection \<open>Sequences of transfers\<close>

lemma transfer_balance:
  "balance (transfer sa da t h a) =
     balance (h a) - (if a = sa then t else 0) + (if a = da then t else 0)"
  by (simp add: transfer_def Let_def)

lemma transfer_frame:
  "generation (transfer sa da t h a) = generation (h a)"
  "consumption (transfer sa da t h a) = consumption (h a)"
  "frequency (transfer sa da t h a) = frequency (h a)"
  by (simp_all add: transfer_def Let_def)

lemma transfers_trans:
  "transfers st h1 h2 \<Longrightarrow> transfers st h h1 \<Longrightarrow> transfers st h h2"
  by (induction rule: transfers.induct) (auto intro: transfers.intros)

lemma transfers_one:
  "sa \<in> snd ` set st \<Longrightarrow> da \<in> snd ` set st \<Longrightarrow> 0 < t \<Longrightarrow> t \<le> balance (h sa) \<Longrightarrow>
   t \<le> - balance (h da) \<Longrightarrow> transfers st h (transfer sa da t h)"
  by (rule transfers_step [OF transfers_none])

lemma transfers_frame:
  "transfers st h h' \<Longrightarrow>
   generation (h' a) = generation (h a) \<and> consumption (h' a) = consumption (h a) \<and>
   frequency (h' a) = frequency (h a)"
  by (induction rule: transfers.induct) (simp_all add: transfer_frame)

lemma transfers_nonpos:
  "transfers st h h' \<Longrightarrow> balance (h a) \<le> 0 \<Longrightarrow> balance (h' a) \<le> 0"
  by (induction rule: transfers.induct) (auto simp: transfer_balance)

lemma transfers_nonneg:
  "transfers st h h' \<Longrightarrow> 0 \<le> balance (h a) \<Longrightarrow> 0 \<le> balance (h' a)"
  by (induction rule: transfers.induct) (auto simp: transfer_balance)

lemma sum_balance_other:
  "a \<notin> snd ` set st \<Longrightarrow> sum_balance (h(a := c)) st = sum_balance h st"
  by (induction st) (auto simp: sum_balance_def)

lemma sum_balance_update:
  "distinct (map snd st) \<Longrightarrow> a \<in> snd ` set st \<Longrightarrow>
   sum_balance (h(a := c)) st = sum_balance h st - balance (h a) + balance c"
proof (induction st)
  case Nil
  then show ?case by simp
next
  case (Cons p st)
  obtain r b where p: "p = (r, b)" by (cases p)
  have split: "sum_balance g (p # st) = balance (g b) + sum_balance g st" for g
    by (simp add: sum_balance_def p)
  show ?case
  proof (cases "b = a")
    case True
    with Cons.prems p have "a \<notin> snd ` set st" by auto
    then have eq: "sum_balance (h(a := c)) st = sum_balance h st"
      by (rule sum_balance_other)
    have "sum_balance (h(a := c)) (p # st) = balance c + sum_balance h st"
      unfolding split eq using True by simp
    moreover have "sum_balance h (p # st) = balance (h a) + sum_balance h st"
      unfolding split using True by simp
    ultimately show ?thesis
      by linarith
  next
    case False
    with Cons.prems p have "a \<in> snd ` set st" "distinct (map snd st)" by auto
    then have eq: "sum_balance (h(a := c)) st = sum_balance h st - balance (h a) + balance c"
      using Cons.IH by blast
    have "sum_balance (h(a := c)) (p # st)
        = balance (h b) + (sum_balance h st - balance (h a) + balance c)"
      unfolding split eq using False by simp
    moreover have "sum_balance h (p # st) = balance (h b) + sum_balance h st"
      unfolding split by simp
    ultimately show ?thesis
      by linarith
  qed
qed

lemma sum_balance_transfer:
  assumes "distinct (map snd st)" "sa \<in> snd ` set st" "da \<in> snd ` set st"
  shows "sum_balance (transfer sa da t h) st = sum_balance h st"
proof -
  let ?h1 = "h(sa := (h sa)\<lparr>balance := balance (h sa) - t\<rparr>)"
  have "sum_balance ?h1 st = sum_balance h st - t"
    using sum_balance_update [OF assms(1,2), of h] by simp
  moreover have "sum_balance (?h1(da := (?h1 da)\<lparr>balance := balance (?h1 da) + t\<rparr>)) st
      = sum_balance ?h1 st + t"
    using sum_balance_update [OF assms(1,3), of ?h1] by simp
  ultimately show ?thesis
    by (simp add: transfer_def Let_def)
qed

lemma transfers_sum_balance:
  "transfers st h h' \<Longrightarrow> distinct (map snd st) \<Longrightarrow> sum_balance h' st = sum_balance h st"
  by (induction rule: transfers.induct) (simp_all add: sum_balance_transfer)

subsection \<open>The greedy pass is a sequence of transfers\<close>

lemma dict_get_addr: "dict_get st r = Inr a \<Longrightarrow> a \<in> snd ` set st"
  by (force dest: dict_get_Inr_D)

lemma transfer_loop_transfers:
  assumes "dict_get st s = Inr sa"
  shows "\<forall>d \<in> set ds. \<exists>da. dict_get st d = Inr da \<and> balance (h da) \<le> 0 \<Longrightarrow>
         avail = balance (h sa) \<Longrightarrow>
         \<exists>h' acts'. transfer_loop ev st s ds avail (h, acts) = Inr (h', acts') \<and> transfers st h h'"
proof (induction ds arbitrary: h acts avail)
  case Nil
  then show ?case by (auto intro: transfers_none)
next
  case (Cons d ds)
  from Cons.prems(1) obtain da where da: "dict_get st d = Inr da" "balance (h da) \<le> 0"
    by auto
  have rest: "\<forall>d \<in> set ds. \<exists>da. dict_get st d = Inr da \<and> balance (h da) \<le> 0"
    using Cons.prems(1) by simp
  define t where "t = min avail \<bar>balance (h da)\<bar>"
  show ?case
  proof (cases "\<bar>balance (h da)\<bar> \<le> 0 \<or> t \<le> 0")
    case True
    from Cons.IH [where acts = acts, OF rest Cons.prems(2)] obtain h' acts' where
      "transfer_loop ev st s ds avail (h, acts) = Inr (h', acts')" "transfers st h h'"
      by blast
    with True da show ?thesis
      by (auto simp: Let_def t_def)
  next
    case False
    then have pos: "0 < t" and need: "\<not> \<bar>balance (h da)\<bar> \<le> 0" by auto
    have le_s: "t \<le> balance (h sa)"
      using Cons.prems(2) by (simp add: t_def)
    have le_d: "t \<le> - balance (h da)"
      using da(2) by (simp add: t_def)
    have ne: "sa \<noteq> da"
      using pos le_s da(2) by auto
    let ?h2 = "transfer sa da t h"
    let ?acts = "acts @ [\<lparr>source = s, target = d, amount = py_round2 t,
                         timestamp = clock ev (length acts)\<rparr>]"
    have step: "transfers st h ?h2"
      by (rule transfers_one [OF dict_get_addr [OF assms] dict_get_addr [OF da(1)] pos le_s le_d])
    let ?h1 = "h(sa := (h sa)\<lparr>balance := balance (h sa) - t\<rparr>)"
    have u1: "update_cell st s (\<lambda>c. c\<lparr>balance := balance c - t\<rparr>) h = Inr ?h1"
      using assms by (simp add: update_cell_def)
    have u2: "update_cell st d (\<lambda>c. c\<lparr>balance := balance c + t\<rparr>) ?h1 = Inr ?h2"
      using da(1) by (simp add: update_cell_def transfer_def Let_def)
    have unfold: "transfer_loop ev st s (d # ds) avail (h, acts) =
        (if avail - t \<le> 0 then Inr (?h2, ?acts)
         else transfer_loop ev st s ds (avail - t) (?h2, ?acts))"
      using da(1) need pos by (simp add: Let_def t_def [symmetric] u1 u2)
    show ?thesis
    proof (cases "avail - t \<le> 0")
      case True
      with unfold step show ?thesis by auto
    next
      case False
      have rest2: "\<forall>d \<in> set ds. \<exists>da. dict_get st d = Inr da \<and> balance (?h2 da) \<le> 0"
        using rest transfers_nonpos [OF step] by blast
      have av: "avail - t = balance (?h2 sa)"
        using Cons.prems(2) ne by (simp add: transfer_balance)
      from Cons.IH [where acts = ?acts, OF rest2 av] obtain h' acts' where
        run: "transfer_loop ev st s ds (avail - t) (?h2, ?acts) = Inr (h', acts')"
        and tr: "transfers st ?h2 h'"
        by blast
      from transfers_trans [OF tr step] run unfold False show ?thesis
        by auto
    qed
  qed
qed

lemma balance_loop_transfers:
  "\<forall>s \<in> set srs. \<exists>sa. dict_get st s = Inr sa \<Longrightarrow>
   \<forall>d \<in> set ds. \<exists>da. dict_get st d = Inr da \<and> balance (h da) \<le> 0 \<Longrightarrow>
   \<exists>h' acts'. balance_loop ev st srs ds (h, acts) = Inr (h', acts') \<and> transfers st h h'"
proof (induction srs arbitrary: h acts)
  case Nil
  then show ?case by (auto intro: transfers_none)
next
  case (Cons s srs)
  from Cons.prems(1) obtain sa where sa: "dict_get st s = Inr sa" by auto
  have rest: "\<forall>s \<in> set srs. \<exists>sa. dict_get st s = Inr sa"
    using Cons.prems(1) by simp
  show ?case
  proof (cases "balance (h sa) \<le> 0")
    case True
    from Cons.IH [where acts = acts, OF rest Cons.prems(2)] obtain h' acts' where
      "balance_loop ev st srs ds (h, acts) = Inr (h', acts')" "transfers st h h'"
      by blast
    with True sa show ?thesis by (auto simp: Let_def)
  next
    case False
    from transfer_loop_transfers [where ev = ev and acts = acts, OF sa Cons.prems(2) refl] obtain h1 acts1 where
      inner: "transfer_loop ev st s ds (balance (h sa)) (h, acts) = Inr (h1, acts1)"
      and tr1: "transfers st h h1"
      by blast
    have ds1: "\<forall>d \<in> set ds. \<exists>da. dict_get st d = Inr da \<and> balance (h1 da) \<le> 0"
      using Cons.prems(2) transfers_nonpos [OF tr1] by blast
    from Cons.IH [where acts = acts1, OF rest ds1] obtain h' acts' where
      run: "balance_loop ev st srs ds (h1, acts1) = Inr (h', acts')"
      and tr2: "transfers st h1 h'"
      by blast
    from transfers_trans [OF tr2 tr1] run inner sa False show ?thesis
      by (auto simp: Let_def)
  qed
qed

lemma rebalance_transfers:
  "\<exists>h' acts. rebalance ev st h = Inr (h', acts) \<and> transfers st h h'"
proof -
  obtain srt where srt: "sorted_by_balance h st = Inr srt" "set srt = fst ` set st"
    using sorted_by_balance_keys by blast
  then have sub: "set srt \<subseteq> fst ` set st" by simp
  from select_regions_keys [OF sub, of "\<lambda>b. 0 < b" h] obtain srs where
    srs: "select_regions (\<lambda>b. 0 < b) h st srt = Inr srs"
    "\<forall>r \<in> set srs. \<exists>a. dict_get st r = Inr a \<and> 0 < balance (h a)"
    by blast
  from select_regions_keys [OF sub, of "\<lambda>b. b < 0" h] obtain ds where
    ds: "select_regions (\<lambda>b. b < 0) h st srt = Inr ds"
    "\<forall>r \<in> set ds. \<exists>a. dict_get st r = Inr a \<and> balance (h a) < 0"
    by blast
  have p1: "\<forall>s \<in> set srs. \<exists>sa. dict_get st s = Inr sa"
    using srs(2) by blast
  have p2: "\<forall>d \<in> set ds. \<exists>da. dict_get st d = Inr da \<and> balance (h da) \<le> 0"
    using ds(2) by force
  from balance_loop_transfers [where ev = ev and acts = "[]", OF p1 p2] srt(1) srs(1) ds(1) show ?thesis
    by (simp add: rebalance_def)
qed

subsection \<open>The frequency loop\<close>

lemma frequency_loop_frame:
  "frequency_loop ist bst rs h = Inr h' \<Longrightarrow>
   balance (h' a) = balance (h a) \<and> generation (h' a) = generation (h a) \<and>
   consumption (h' a) = consumption (h a)"
proof (induction rs arbitrary: h)
  case Nil
  then show ?case by simp
next
  case (Cons r rs)
  from Cons.prems obtain b c where
    run: "frequency_loop ist bst rs (h(b := (h b)\<lparr>frequency := c\<rparr>)) = Inr h'"
    by (auto simp: Let_def bind_err_Inr_iff)
  from Cons.IH [OF run] show ?case
    by (simp split: if_splits)
qed

lemma sum_balance_cong:
  "(\<And>a. balance (h' a) = balance (h a)) \<Longrightarrow> sum_balance h' st = sum_balance h st"
  by (simp add: sum_balance_def)

lemma frequency_loop_sum_balance:
  "frequency_loop ist bst rs h = Inr h' \<Longrightarrow> sum_balance h' st = sum_balance h st"
  by (rule sum_balance_cong) (simp add: frequency_loop_frame)

text \<open>
  With \<open>balanced_status\<close> and \<open>initial_status\<close> holding the same addresses, the balance
  change the loop computes is zero, and the new frequency is the old one clamped.
\<close>

lemma frequency_loop_aliased:
  "distinct (map fst st) \<Longrightarrow> distinct (map snd st) \<Longrightarrow> distinct rs \<Longrightarrow>
   frequency_loop st st rs h = Inr h' \<Longrightarrow> (r, a) \<in> set st \<Longrightarrow>
   frequency (h' a) =
     (if r \<in> set rs then min (502 / 10) (max (498 / 10) (frequency (h a))) else frequency (h a))"
proof (induction rs arbitrary: h)
  case Nil
  then show ?case by simp
next
  case (Cons r' rs)
  let ?c = "min (502 / 10) (max (498 / 10) (frequency (h a)))"
  from Cons.prems(4) obtain b where
    b: "dict_get st r' = Inr b"
    and run: "frequency_loop st st rs
                (h(b := (h b)\<lparr>frequency := min (502 / 10) (max (498 / 10) (frequency (h b)))\<rparr>)) = Inr h'"
    by (auto simp: Let_def bind_err_Inr_iff py_div_def split: if_splits)
  let ?h1 = "h(b := (h b)\<lparr>frequency := min (502 / 10) (max (498 / 10) (frequency (h b)))\<rparr>)"
  have mem: "(r', b) \<in> set st"
    using b by (rule dict_get_Inr_D)
  from Cons.prems(3) have d: "distinct rs" and nin: "r' \<notin> set rs" by auto
  have IH: "frequency (h' a) =
      (if r \<in> set rs then min (502 / 10) (max (498 / 10) (frequency (?h1 a))) else frequency (?h1 a))"
    by (rule Cons.IH [OF Cons.prems(1,2) d run Cons.prems(5)])
  show ?case
  proof (cases "r = r'")
    case True
    then have "a = b"
      using Cons.prems(1,5) mem by (auto dest: eq_key_imp_eq_value)
    with True nin IH show ?thesis by simp
  next
    case False
    have "a \<noteq> b"
    proof
      assume "a = b"
      with Cons.prems(2,5) mem have "r = r'"
        by (metis distinct_map inj_onD snd_conv prod.inject)
      with False show False by simp
    qed
    with False IH show ?thesis by simp
  qed
qed

subsection \<open>The stages of a successful run\<close>

lemma simulate_body_stages:
  assumes "simulate_body ev scen regions regional_data = Inr res"
  shows "\<exists>h st h1 acts h2.
           prepare_status ev scen regions regional_data = Inr (h, st) \<and>
           rebalance ev st h = Inr (h1, acts) \<and>
           frequency_loop st st (map fst st) h1 = Inr h2 \<and>
           initial_status res = st \<and> balanced_status res = st \<and>
           balancing_actions res = acts \<and> final_heap res = h2 \<and>
           initial_imbalance (result_metrics res) = py_round2 (sum_balance h st) \<and>
           remaining_imbalance (result_metrics res) = py_round2 (sum_balance h2 st) \<and>
           improvement_percentage (result_metrics res)
             = py_round2 (improvement (sum_balance h st) (sum_balance h2 st))"
  using assms
  by (auto simp: simulate_body_def bind_err_Inr_iff Let_def split: prod.splits)

lemma simulate_load_balancing_Result:
  "simulate_load_balancing ev scen regions_arg regional_data = Result res \<Longrightarrow>
   \<exists>regions. simulate_body ev scen regions regional_data = Inr res"
  by (auto simp: simulate_load_balancing_def Let_def split: sum.splits)

lemma rebalance_Inr_transfers:
  assumes "rebalance ev st h = Inr (h', acts)"
  shows "transfers st h h'"
  using rebalance_transfers [of ev st h] assms by auto

lemma py_round2_zero: "py_round2 0 = 0"
  by (simp add: py_round2_def)

lemma improvement_same: "improvement t t = 0"
  by (simp add: improvement_def)

subsection \<open>The end-to-end example\<close>

lemma simulate_AB:
  "map_option
     (\<lambda>res. (initial_status res, balanced_status res,
             map (\<lambda>a. (source a, target a, amount a)) (balancing_actions res),
             final_heap res 0, final_heap res 1, result_metrics res))
     (result_of (simulate_load_balancing ev ''normal'' None snapshot_AB))
   = Some ([(''A'', 0), (''B'', 1)], [(''A'', 0), (''B'', 1)], [(''A'', ''B'', 20)],
           \<lparr>generation = 100, consumption = 80, balance = 0, frequency = 50\<rparr>,
           \<lparr>generation = 50, consumption = 90, balance = - 20, frequency = 50\<rparr>,
           \<lparr>initial_imbalance = - 20, remaining_imbalance = - 20,
              improvement_percentage = 0, transfers_count = 1, total_power_transferred = 20\<rparr>)"
  by (simp add: simulate_load_balancing_def simulate_body_def prepare_status_def snapshot_AB_def
      empty_heap_def apply_scenario_def rebalance_def sorted_by_balance_def select_regions_def
      dict_get_def update_cell_def sum_balance_def improvement_def py_round2_def py_div_def
      result_of_def Let_def)

lemma prepare_AB:
  "\<exists>h. prepare_status ev ''normal'' [''A'', ''B''] snapshot_AB = Inr (h, [(''A'', 0), (''B'', 1)]) \<and>
     h 0 = \<lparr>generation = 100, consumption = 80, balance = 20, frequency = 50\<rparr> \<and>
     h 1 = \<lparr>generation = 50, consumption = 90, balance = - 40, frequency = 50\<rparr>"
  by (simp add: prepare_status_def snapshot_AB_def empty_heap_def apply_scenario_def Let_def)

lemma result_of_Some: "result_of r = Some res \<longleftrightarrow> r = Result res"
  by (cases r) (simp_all add: result_of_def)

subsection \<open>The claims about the load balancer\<close>

text \<open>
  C2, as the code has it. For the snapshot \<open>{A: gen=100, cons=80}, {B: gen=50, cons=90}\<close>
  under \<open>normal\<close>, in any environment, the run succeeds with exactly one action, 20 from A
  to B, final balances A = 0 and B = -20, and \<open>improvement_percentage = 0\<close>: the imbalance
  is the sum of the signed balances, -20 before and after.
\<close>

theorem simulate_AB_result:
  "map_option
     (\<lambda>res. (map (\<lambda>a. (source a, target a, amount a)) (balancing_actions res),
             map_option balance (view (final_heap res) (balanced_status res) ''A''),
             map_option balance (view (final_heap res) (balanced_status res) ''B''),
             improvement_percentage (result_metrics res)))
     (result_of (simulate_load_balancing ev ''normal'' None snapshot_AB))
   = Some ([(''A'', ''B'', 20)], Some 0, Some (- 20), 0)"
  using simulate_AB [of ev] by (auto simp: view_def)

text \<open>
  C2, as the claim states it, fails at its last number: on the example the reported
  \<open>improvement_percentage\<close> is not 50.
\<close>

theorem simulate_AB_improvement_not_50:
  "map_option (improvement_percentage \<circ> result_metrics)
     (result_of (simulate_load_balancing env0 ''normal'' None snapshot_AB)) \<noteq> Some 50"
  using simulate_AB [of env0] by auto

text \<open>
  C3. The claim: the frequency in \<open>balanced_status\<close> is the perturbed frequency plus
  \<open>(finalBalance - initialBalance) / initialConsumption * 0.1\<close>, clamped. On the example,
  region A starts at frequency 50 with balance 20 and consumption 80 and ends with
  balance 0, so the claim gives 49.975; the code returns 50.
\<close>

theorem simulate_AB_frequency:
  "map_option (\<lambda>res. map_option frequency (view (final_heap res) (balanced_status res) ''A''))
     (result_of (simulate_load_balancing ev ''normal'' None snapshot_AB)) = Some (Some 50) \<and>
   spec_frequency 50 20 0 80 = 1999 / 40"
  using simulate_AB [of ev] by (auto simp: view_def spec_frequency_def)

text \<open>
  C4, under exact arithmetic. Whatever the snapshot, the region filter, the scenario and
  the random draws: when the stages before the greedy pass succeed, the greedy pass
  returns, and the sum over all regions of \<open>generation - consumption\<close> before any
  transfer equals the sum of the balances after all transfers.
\<close>

theorem rebalance_conserves_total:
  assumes "prepare_status ev scen regions regional_data = Inr (h, st)"
  shows "\<exists>h' acts. rebalance ev st h = Inr (h', acts) \<and>
           sum_list (map (\<lambda>(r, a). generation (h a) - consumption (h a)) st) = sum_balance h' st"
proof -
  from prepare_status_wf [OF assms] obtain n where
    wf: "wf_status n st" and derived: "balances_derived h st"
    by blast
  from rebalance_transfers [of ev st h] obtain h' acts where
    run: "rebalance ev st h = Inr (h', acts)" and tr: "transfers st h h'"
    by blast
  have "sum_balance h' st = sum_balance h st"
    using tr wf by (simp add: transfers_sum_balance wf_status_def)
  moreover have "sum_list (map (\<lambda>(r, a). generation (h a) - consumption (h a)) st)
      = sum_balance h st"
    unfolding sum_balance_def
    by (rule arg_cong [where f = sum_list], rule map_cong [OF refl])
       (use derived in \<open>auto simp: balances_derived_def list_all_iff\<close>)
  ultimately have "sum_list (map (\<lambda>(r, a). generation (h a) - consumption (h a)) st)
      = sum_balance h' st"
    by simp
  with run show ?thesis
    by blast
qed

theorem rebalance_conserves_total_witness:
  "\<exists>h st h' acts.
     prepare_status env0 ''peak'' [''A'', ''B''] snapshot_AB = Inr (h, st) \<and>
     rebalance env0 st h = Inr (h', acts) \<and>
     sum_list (map (\<lambda>(r, a). generation (h a) - consumption (h a)) st) = sum_balance h' st"
proof -
  have "\<exists>h st. prepare_status env0 ''peak'' [''A'', ''B''] snapshot_AB = Inr (h, st)"
    by (simp add: prepare_status_def snapshot_AB_def empty_heap_def apply_scenario_def
        update_cell_def dict_get_def env0_def Let_def)
  then obtain h st where p: "prepare_status env0 ''peak'' [''A'', ''B''] snapshot_AB = Inr (h, st)"
    by blast
  from rebalance_conserves_total [OF p] p show ?thesis
    by blast
qed

text \<open>
  C4, as the claim states it, with no proviso on the arithmetic, fails in the floats of
  the code. On the snapshot \<open>{A: gen=0.1, cons=0.6}, {B: gen=0.1, cons=1.3},
  {C: gen=0.2, cons=0.1}\<close> the balances are \<open>-0.5\<close>, \<open>-1.2\<close> and \<open>0.1\<close>; the pass makes one
  transfer, of \<open>0.1\<close> from C to A, and \<open>-0.5 + 0.1\<close> rounds. Python's \<open>sum\<close> of the
  balances is \<open>-1.5999999999999999\<close> before the pass and \<open>-1.6\<close> after it, and the exact
  sum of the stored balances has moved by \<open>- 2 ^ -55\<close>.
\<close>

theorem rebalance_float_changes_total:
  "(case build_initial_status_float snapshot_ABC (empty_heap, 0, []) of (h, n, st) \<Rightarrow>
      (case rebalance_float env0 st h of
         Inl e \<Rightarrow> False
       | Inr (h', acts) \<Rightarrow>
           map (\<lambda>a. (source a, target a)) acts = [(''C'', ''A'')] \<and>
           sum_balance_float h st = - (7205759403792793 / 2 ^ 52) \<and>
           sum_balance_float h' st = - (3602879701896397 / 2 ^ 51) \<and>
           sum_balance_float h' st \<noteq> sum_balance_float h st \<and>
           sum_balance h' st = sum_balance h st - 1 / 2 ^ 55))"
  by code_simp

text \<open>
  C7. For every status and store, the greedy pass returns, and no region that started
  with a positive balance ends with a negative one, and no region that started with a
  negative balance ends with a positive one.
\<close>

theorem rebalance_keeps_signs:
  "\<exists>h' acts. rebalance ev st h = Inr (h', acts) \<and>
     list_all (\<lambda>(r, a). (0 < balance (h a) \<longrightarrow> 0 \<le> balance (h' a)) \<and>
                         (balance (h a) < 0 \<longrightarrow> balance (h' a) \<le> 0)) st"
proof -
  from rebalance_transfers [of ev st h] obtain h' acts where
    run: "rebalance ev st h = Inr (h', acts)" and tr: "transfers st h h'"
    by blast
  have "0 \<le> balance (h' a)" if "0 < balance (h a)" for a
    using transfers_nonneg [OF tr, of a] that by simp
  moreover have "balance (h' a) \<le> 0" if "balance (h a) < 0" for a
    using transfers_nonpos [OF tr, of a] that by simp
  ultimately show ?thesis
    using run by (auto simp: list_all_iff)
qed

theorem rebalance_keeps_signs_witness:
  "\<exists>h h' acts.
     prepare_status env0 ''normal'' [''A'', ''B''] snapshot_AB = Inr (h, [(''A'', 0), (''B'', 1)]) \<and>
     rebalance env0 [(''A'', 0), (''B'', 1)] h = Inr (h', acts) \<and>
     0 < balance (h 0) \<and> 0 \<le> balance (h' 0) \<and> balance (h 1) < 0 \<and> balance (h' 1) \<le> 0"
proof -
  from prepare_AB [of env0] obtain h where
    p: "prepare_status env0 ''normal'' [''A'', ''B''] snapshot_AB = Inr (h, [(''A'', 0), (''B'', 1)])"
    and h: "h 0 = \<lparr>generation = 100, consumption = 80, balance = 20, frequency = 50\<rparr>"
           "h 1 = \<lparr>generation = 50, consumption = 90, balance = - 40, frequency = 50\<rparr>"
    by auto
  from rebalance_keeps_signs [of env0 "[(''A'', 0), (''B'', 1)]" h] obtain h' acts where
    "rebalance env0 [(''A'', 0), (''B'', 1)] h = Inr (h', acts)"
    "0 \<le> balance (h' 0)" "balance (h' 1) \<le> 0"
    using h by auto
  with p h show ?thesis
    by auto
qed

text \<open>
  C8. Under a scenario name other than \<open>peak\<close>, \<open>renewable_surplus\<close> and \<open>outage\<close>, so
  under \<open>normal\<close> and under any unknown name, the scenario stage raises nothing and
  returns the store as it is: when the greedy pass starts, every region has the
  generation, consumption, frequency and balance that the loop building
  \<open>initial_status\<close> derived from the snapshot.
\<close>

theorem unknown_scenario_no_change:
  assumes "scen \<noteq> ''peak''" "scen \<noteq> ''renewable_surplus''" "scen \<noteq> ''outage''"
  shows "apply_scenario scen ev st h = Inr h \<and>
         apply_scenario ''normal'' ev st h = Inr h \<and>
         prepare_status ev scen regions regional_data =
           (case build_initial_status (filter_regions regions regional_data []) (empty_heap, 0, [])
            of (h0, n, st0) \<Rightarrow> Inr (h0, st0))"
  using assms by (simp add: apply_scenario_def prepare_status_def Let_def split: prod.splits)

theorem unknown_scenario_no_change_witness:
  "apply_scenario ''storm'' env0 [(''A'', 0)] empty_heap = Inr empty_heap \<and>
   apply_scenario ''normal'' env0 [(''A'', 0)] empty_heap = Inr empty_heap \<and>
   map_sum id (\<lambda>(h, st). (h 0, h 1, st))
     (prepare_status env0 ''storm'' [''A'', ''B''] snapshot_AB) =
     Inr (\<lparr>generation = 100, consumption = 80, balance = 20, frequency = 50\<rparr>,
          \<lparr>generation = 50, consumption = 90, balance = - 40, frequency = 50\<rparr>,
          [(''A'', 0), (''B'', 1)])"
  using unknown_scenario_no_change [of "''storm''" env0 "[(''A'', 0)]" empty_heap
      "[''A'', ''B'']" snapshot_AB]
  by (simp add: snapshot_AB_def empty_heap_def)

text \<open>
  C9. In the result of every successful run, \<open>initial_status\<close> and \<open>balanced_status\<close> hold
  the same addresses, so a reader sees the same record under a region name in both: the
  balances and frequencies after rebalancing.
\<close>

theorem initial_status_is_balanced_status:
  assumes "simulate_load_balancing ev scen regions_arg regional_data = Result res"
  shows "initial_status res = balanced_status res \<and>
         view (final_heap res) (initial_status res) = view (final_heap res) (balanced_status res)"
proof -
  from simulate_load_balancing_Result [OF assms] obtain regions where
    "simulate_body ev scen regions regional_data = Inr res"
    by blast
  from simulate_body_stages [OF this] show ?thesis
    by auto
qed

theorem initial_status_is_balanced_status_witness:
  "\<exists>res h. simulate_load_balancing env0 ''normal'' None snapshot_AB = Result res \<and>
     initial_status res = balanced_status res \<and>
     view (final_heap res) (initial_status res) = view (final_heap res) (balanced_status res) \<and>
     prepare_status env0 ''normal'' [''A'', ''B''] snapshot_AB = Inr (h, initial_status res) \<and>
     map_option balance (view h (initial_status res) ''A'') = Some 20 \<and>
     map_option balance (view (final_heap res) (initial_status res) ''A'') = Some 0"
proof -
  from simulate_AB [of env0] obtain res where
    r: "simulate_load_balancing env0 ''normal'' None snapshot_AB = Result res"
    and st: "initial_status res = [(''A'', 0), (''B'', 1)]"
    and h0: "final_heap res 0 = \<lparr>generation = 100, consumption = 80, balance = 0, frequency = 50\<rparr>"
    by (auto simp: result_of_Some)
  from prepare_AB [of env0] obtain h where
    p: "prepare_status env0 ''normal'' [''A'', ''B''] snapshot_AB = Inr (h, [(''A'', 0), (''B'', 1)])"
    and h: "h 0 = \<lparr>generation = 100, consumption = 80, balance = 20, frequency = 50\<rparr>"
    by auto
  from initial_status_is_balanced_status [OF r] have
    eq: "initial_status res = balanced_status res"
    and v: "view (final_heap res) (initial_status res) = view (final_heap res) (balanced_status res)"
    by simp_all
  have p': "prepare_status env0 ''normal'' [''A'', ''B''] snapshot_AB = Inr (h, initial_status res)"
    by (simp add: st p)
  have a: "map_option balance (view h (initial_status res) ''A'') = Some 20"
    by (simp add: st view_def h)
  have b: "map_option balance (view (final_heap res) (initial_status res) ''A'') = Some 0"
    by (simp add: st view_def h0)
  from r eq v p' a b show ?thesis
    by blast
qed

text \<open>
  C10. In the result of every successful run, whatever the scenario and the transfers,
  \<open>remaining_imbalance\<close> equals \<open>initial_imbalance\<close> and \<open>improvement_percentage\<close> is 0.
\<close>

theorem metrics_show_no_improvement:
  assumes "simulate_load_balancing ev scen regions_arg regional_data = Result res"
  shows "remaining_imbalance (result_metrics res) = initial_imbalance (result_metrics res) \<and>
         improvement_percentage (result_metrics res) = 0"
proof -
  from simulate_load_balancing_Result [OF assms] obtain regions where
    "simulate_body ev scen regions regional_data = Inr res"
    by blast
  from simulate_body_stages [OF this] obtain h st h1 acts h2 where
    p: "prepare_status ev scen regions regional_data = Inr (h, st)"
    and run: "rebalance ev st h = Inr (h1, acts)"
    and fr: "frequency_loop st st (map fst st) h1 = Inr h2"
    and m: "initial_imbalance (result_metrics res) = py_round2 (sum_balance h st)"
      "remaining_imbalance (result_metrics res) = py_round2 (sum_balance h2 st)"
      "improvement_percentage (result_metrics res)
         = py_round2 (improvement (sum_balance h st) (sum_balance h2 st))"
    by blast
  from prepare_status_wf [OF p] have d: "distinct (map snd st)"
    by (auto simp: wf_status_def)
  have "sum_balance h1 st = sum_balance h st"
    by (rule transfers_sum_balance [OF rebalance_Inr_transfers [OF run] d])
  moreover have "sum_balance h2 st = sum_balance h1 st"
    by (rule frequency_loop_sum_balance [OF fr])
  ultimately have "sum_balance h2 st = sum_balance h st"
    by simp
  with m show ?thesis
    by (simp add: improvement_same py_round2_zero)
qed

theorem metrics_show_no_improvement_witness:
  "\<exists>res. simulate_load_balancing env0 ''peak'' None snapshot_AB = Result res \<and>
     remaining_imbalance (result_metrics res) = initial_imbalance (result_metrics res) \<and>
     improvement_percentage (result_metrics res) = 0 \<and>
     transfers_count (result_metrics res) = 1"
proof -
  have "map_option (transfers_count \<circ> result_metrics)
          (result_of (simulate_load_balancing env0 ''peak'' None snapshot_AB)) = Some 1"
    by (simp add: simulate_load_balancing_def simulate_body_def prepare_status_def snapshot_AB_def
        empty_heap_def apply_scenario_def rebalance_def sorted_by_balance_def select_regions_def
        dict_get_def update_cell_def sum_balance_def improvement_def py_round2_def py_div_def
        result_of_def env0_def Let_def)
  then obtain res where
    r: "simulate_load_balancing env0 ''peak'' None snapshot_AB = Result res"
    and n: "transfers_count (result_metrics res) = 1"
    by (auto simp: result_of_Some)
  from metrics_show_no_improvement [OF r] r n show ?thesis
    by blast
qed

section \<open>Forecaster: the forecast of the model\<close>

subsection \<open>Float rounding is monotone\<close>



















subsection \<open>The points of the model's forecast\<close>













end
